theory Spec2Isabelle
  imports Main "HOL-Library.Sublist" "HOL-Library.AList"
begin

section \<open>Data model\<close>

text \<open>
  Python \<open>bytes\<close> and the ASCII \<open>str\<close> values of the server are both sequences of
  8-bit characters. Header text is taken to be ASCII, so \<open>str.lower\<close> is the ASCII
  case fold and \<open>str.encode\<close> is the identity.
\<close>

type_synonym bytes = string

definition CRLF :: string where
  "CRLF = [CHR 0x0D, CHR 0x0A]"

text \<open>
  \<open>HTTPMessage\<close> is declared in \<open>http_parser\<close>; the server and the tests read the
  fields \<open>method\<close>, \<open>url\<close>, \<open>version\<close>, \<open>headers\<close> (a dict keyed by lowercase name,
  here its items in insertion order) and \<open>body\<close>.
\<close>

record HTTPMessage =
  "method" :: string
  url :: string
  version :: string
  headers :: "(string \<times> string) list"
  body :: bytes

text \<open>
  The exceptions \<open>HTTPParser.parse_message\<close> can raise, as the server sees them: the two
  the tests import, and any other subclass of \<open>Exception\<close>.
\<close>

datatype exn = IncompleteMessageError | InvalidMessageError | OtherException

text \<open>
  \<open>HTTPParser.parse_message(data)\<close> returns a pair \<open>(message, consumed)\<close> or raises.
  The message is an \<open>HTTPMessage\<close> (truthy) or \<open>None\<close>. The module \<open>http_parser\<close> is
  not among the sources, so the functions that call the parser take it as their first
  argument \<open>parse\<close>.
\<close>

type_synonym parser = "bytes \<Rightarrow> exn + (HTTPMessage option \<times> int)"

text \<open>A route set of one port: the dict \<open>{path: root_dir}\<close> in insertion order.\<close>

type_synonym locations = "(string \<times> string) list"

text \<open>
  The file system as \<open>open(file_path, "rb").read()\<close> sees it: the content, or
  \<open>None\<close> when opening or reading raises.
\<close>

type_synonym filesystem = "string \<Rightarrow> bytes option"

section \<open>RouteMatcher\<close>

definition startswith :: "string \<Rightarrow> string \<Rightarrow> bool" where
  "startswith uri path = prefix path uri"

text \<open>
  The \<open>for\<close> loop of \<open>match_location\<close>, with its two variables
  \<open>matched_location\<close> and \<open>longest_prefix\<close>.
\<close>

fun match_loop :: "locations \<Rightarrow> string \<Rightarrow> string option \<Rightarrow> int \<Rightarrow> string option" where
  "match_loop [] uri matched_location longest_prefix = matched_location"
| "match_loop ((path, root_dir) # rest) uri matched_location longest_prefix =
     (if startswith uri path \<and> int (length path) > longest_prefix
      then match_loop rest uri (Some root_dir) (int (length path))
      else match_loop rest uri matched_location longest_prefix)"

definition match_location :: "locations \<Rightarrow> string \<Rightarrow> string option" where
  "match_location locs uri = match_loop locs uri None (- 1)"

section \<open>DataProvider\<close>

record DataProvider =
  data :: bytes

definition new_DataProvider :: DataProvider where
  "new_DataProvider = \<lparr>data = []\<rparr>"

text \<open>The property setter: \<open>self._data += chunk\<close>.\<close>

definition data_setter :: "DataProvider \<Rightarrow> bytes \<Rightarrow> DataProvider" where
  "data_setter dp chunk = dp\<lparr>data := data dp @ chunk\<rparr>"

text \<open>
  The slice \<open>xs[size:]\<close> of Python: a negative start counts from the end and is
  clamped at the start of the sequence.
\<close>

definition slice_from :: "'a list \<Rightarrow> int \<Rightarrow> 'a list" where
  "slice_from xs sz =
     (if sz < 0 then drop (nat (int (length xs) + sz)) xs else drop (nat sz) xs)"

definition reduce_data :: "DataProvider \<Rightarrow> int \<Rightarrow> DataProvider" where
  "reduce_data dp sz = dp\<lparr>data := slice_from (data dp) sz\<rparr>"

section \<open>HTTPProcessor\<close>

text \<open>
  \<open>get_one_http_message\<close> returns the message (or \<open>None\<close>) and leaves the data
  provider updated. Every exception of the parser is caught and becomes \<open>None\<close>.
\<close>

definition get_one_http_message :: "parser \<Rightarrow> DataProvider \<Rightarrow> HTTPMessage option \<times> DataProvider" where
  "get_one_http_message parse dp =
     (case parse (data dp) of
        Inl e \<Rightarrow> (None, dp)
      | Inr (message, consumed) \<Rightarrow>
          (case message of
             None \<Rightarrow> (None, dp)
           | Some m \<Rightarrow> (Some m, reduce_data dp consumed)))"

section \<open>Strings of the responder\<close>

definition digit_char :: "nat \<Rightarrow> char" where
  "digit_char d = char_of (48 + d)"

text \<open>The decimal text of a length, as an f-string formats it.\<close>

function str_nat :: "nat \<Rightarrow> string" where
  "str_nat n = (if n < 10 then [digit_char n] else str_nat (n div 10) @ [digit_char (n mod 10)])"
  by pat_completeness auto
termination
  by (relation "measure id") auto

definition lower_char :: "char \<Rightarrow> char" where
  "lower_char c =
     (let n = (of_char c :: nat) in if 65 \<le> n \<and> n \<le> 90 then char_of (n + 32) else c)"

definition lower :: "string \<Rightarrow> string" where
  "lower s = map lower_char s"

text \<open>A decimal digit, and the number a decimal text denotes.\<close>

definition is_digit :: "char \<Rightarrow> bool" where
  "is_digit c = (let n = (of_char c :: nat) in 48 \<le> n \<and> n \<le> 57)"

definition decimal_value :: "string \<Rightarrow> nat" where
  "decimal_value s = foldl (\<lambda>a c. 10 * a + (of_char c - 48)) 0 s"

text \<open>The substring test \<open>needle in s\<close>.\<close>

definition contains :: "string \<Rightarrow> string \<Rightarrow> bool" where
  "contains s needle = sublist needle s"

text \<open>\<open>headers.get(name, "")\<close>.\<close>

definition headers_get :: "(string \<times> string) list \<Rightarrow> string \<Rightarrow> string" where
  "headers_get hs name = (case map_of hs name of None \<Rightarrow> [] | Some v \<Rightarrow> v)"

definition wants_keep_alive :: "HTTPMessage \<Rightarrow> bool" where
  "wants_keep_alive request = contains (lower (headers_get (headers request) ''connection'')) ''keep-alive''"

text \<open>The bytes \<open>_send_404\<close> writes.\<close>

definition response_404 :: bytes where
  "response_404 =
     ''HTTP/1.1 404 Not Found'' @ CRLF @
     ''Content-Length: '' @ str_nat (length ''404 Not Found'') @ CRLF @
     ''Content-Type: text/plain'' @ CRLF @ CRLF @
     ''404 Not Found''"

text \<open>
  The bytes of the success branch: \<open>headers.encode() + body\<close>, where the
  \<open>Connection\<close> line is there when the request asked for keep-alive.
\<close>

definition response_200 :: "bool \<Rightarrow> bytes \<Rightarrow> bytes" where
  "response_200 keep_alive body_bytes =
     ''HTTP/1.1 200 OK'' @ CRLF @
     ''Content-Length: '' @ str_nat (length body_bytes) @ CRLF @
     ''Content-Type: text/plain'' @ CRLF @
     (if keep_alive then ''Connection: keep-alive'' @ CRLF else []) @
     CRLF @ body_bytes"

section \<open>Server (selector loop, server\_v3)\<close>

text \<open>
  One client connection: the data provider registered with the selector, the
  payloads passed to \<open>sendall\<close> in order, and whether the socket is still registered
  and whether it was closed. Writes are taken to succeed.
\<close>

record connection =
  provider :: DataProvider
  sent :: "bytes list"
  registered :: bool
  closed :: bool

definition new_connection :: connection where
  "new_connection = \<lparr>provider = new_DataProvider, sent = [], registered = True, closed = False\<rparr>"

definition send_404 :: "connection \<Rightarrow> connection" where
  "send_404 c = c\<lparr>sent := sent c @ [response_404]\<rparr>"

definition sendall :: "connection \<Rightarrow> bytes \<Rightarrow> connection" where
  "sendall c payload = c\<lparr>sent := sent c @ [payload]\<rparr>"

definition unregister_close :: "connection \<Rightarrow> connection" where
  "unregister_close c = c\<lparr>registered := False, closed := True\<rparr>"

text \<open>
  Lines 156 to 164: the path of the file to serve. \<open>/\<close> becomes \<open>/index.html\<close>
  under the default root; any other url is looked up in the routes, and a missing
  route is formatted by the f-string as the text \<open>None\<close>.
\<close>

definition request_root :: "locations \<Rightarrow> string \<Rightarrow> string option" where
  "request_root locs u = (if u = ''/'' then Some ''html'' else match_location locs u)"

definition request_url :: "string \<Rightarrow> string" where
  "request_url u = (if u = ''/'' then ''/index.html'' else u)"

definition format_root :: "string option \<Rightarrow> string" where
  "format_root r = (case r of None \<Rightarrow> ''None'' | Some d \<Rightarrow> d)"

definition file_path :: "locations \<Rightarrow> string \<Rightarrow> string" where
  "file_path locs u = format_root (request_root locs u) @ request_url u"

text \<open>
  The body of the \<open>while\<close> loop of \<open>_handle_request\<close> for one request. The flag
  is \<open>True\<close> when the loop goes on and \<open>False\<close> when the method returns.
\<close>

definition serve_request :: "locations \<Rightarrow> filesystem \<Rightarrow> HTTPMessage \<Rightarrow> connection \<Rightarrow> bool \<times> connection" where
  "serve_request locs fs request c =
     (case fs (file_path locs (url request)) of
        Some body_bytes \<Rightarrow>
          (if wants_keep_alive request
           then (True, sendall c (response_200 True body_bytes))
           else (False, unregister_close c))
      | None \<Rightarrow> (False, unregister_close (send_404 c)))"

text \<open>
  \<open>_handle_request\<close>: drain the buffer message by message. The loop has no bound of
  its own, so the result is \<open>None\<close> when it never returns.
\<close>

partial_function (option) handle_request :: "parser \<Rightarrow> locations \<Rightarrow> filesystem \<Rightarrow> connection \<Rightarrow> connection option" where
  "handle_request parse locs fs c =
     (case get_one_http_message parse (provider c) of
        (None, dp) \<Rightarrow> Some (c\<lparr>provider := dp\<rparr>)
      | (Some request, dp) \<Rightarrow>
          (case serve_request locs fs request (c\<lparr>provider := dp\<rparr>) of
             (go_on, c') \<Rightarrow> if go_on then handle_request parse locs fs c' else Some c'))"

declare handle_request.simps [code]

text \<open>What \<open>sock.recv(1024)\<close> gives: bytes (empty at end of stream) or a reset.\<close>

datatype recv_result = Received bytes | ConnectionResetError

text \<open>\<open>_service_connection\<close> for a read event.\<close>

definition service_connection :: "parser \<Rightarrow> locations \<Rightarrow> filesystem \<Rightarrow> recv_result \<Rightarrow> connection \<Rightarrow> connection option" where
  "service_connection parse locs fs r c =
     (case r of
        Received chunk \<Rightarrow>
          (if chunk \<noteq> []
           then handle_request parse locs fs (c\<lparr>provider := data_setter (provider c) chunk\<rparr>)
           else Some (unregister_close c))
      | ConnectionResetError \<Rightarrow> Some (unregister_close c))"

section \<open>HTTPSession (blocking server, server\_v1)\<close>

text \<open>
  The session of the blocking server: its data provider, the payloads written to the
  connection, the flag \<open>active\<close> and whether \<open>connection.close()\<close> was called.
\<close>

record HTTPSession =
  data_provider :: DataProvider
  connection_sent :: "bytes list"
  active :: bool
  connection_closed :: bool

definition new_HTTPSession :: HTTPSession where
  "new_HTTPSession =
     \<lparr>data_provider = new_DataProvider, connection_sent = [], active = True,
      connection_closed = False\<rparr>"

definition session_sendall :: "HTTPSession \<Rightarrow> bytes \<Rightarrow> HTTPSession" where
  "session_sendall s payload = s\<lparr>connection_sent := connection_sent s @ [payload]\<rparr>"

text \<open>
  The body of the inner \<open>while\<close> loop of \<open>HTTPSession.handle\<close> for one request:
  the response is written in both branches, and a request without keep-alive only
  clears \<open>active\<close>.
\<close>

definition session_request :: "locations \<Rightarrow> filesystem \<Rightarrow> HTTPMessage \<Rightarrow> HTTPSession \<Rightarrow> HTTPSession" where
  "session_request locs fs request s =
     (case fs (file_path locs (url request)) of
        Some body_bytes \<Rightarrow>
          (if wants_keep_alive request
           then session_sendall s (response_200 True body_bytes)
           else session_sendall (s\<lparr>active := False\<rparr>) (response_200 False body_bytes))
      | None \<Rightarrow> session_sendall s response_404)"

text \<open>The inner loop: every message in the buffer is served, whatever \<open>active\<close> is.\<close>

partial_function (option) session_drain :: "parser \<Rightarrow> locations \<Rightarrow> filesystem \<Rightarrow> HTTPSession \<Rightarrow> HTTPSession option" where
  "session_drain parse locs fs s =
     (case get_one_http_message parse (data_provider s) of
        (None, dp) \<Rightarrow> Some (s\<lparr>data_provider := dp\<rparr>)
      | (Some request, dp) \<Rightarrow>
          session_drain parse locs fs
            (session_request locs fs request (s\<lparr>data_provider := dp\<rparr>)))"

declare session_drain.simps [code]

text \<open>
  The outer loop of \<open>handle\<close> over what the successive \<open>recv\<close> calls give; when the
  list has run out the peer has closed. A reset is not caught there and leaves
  \<open>handle\<close> as an exception (\<open>Inl\<close>).
\<close>

fun handle_loop :: "parser \<Rightarrow> locations \<Rightarrow> filesystem \<Rightarrow> recv_result list \<Rightarrow> HTTPSession \<Rightarrow> (unit + HTTPSession) option" where
  "handle_loop parse locs fs [] s = Some (Inr s)"
| "handle_loop parse locs fs (r # rs) s =
     (if \<not> active s then Some (Inr s)
      else (case r of
              ConnectionResetError \<Rightarrow> Some (Inl ())
            | Received chunk \<Rightarrow>
                (if chunk = [] then Some (Inr s)
                 else (case session_drain parse locs fs
                              (s\<lparr>data_provider := data_setter (data_provider s) chunk\<rparr>) of
                         None \<Rightarrow> None
                       | Some s' \<Rightarrow> handle_loop parse locs fs rs s'))))"

definition handle :: "parser \<Rightarrow> locations \<Rightarrow> filesystem \<Rightarrow> recv_result list \<Rightarrow> HTTPSession \<Rightarrow> (unit + HTTPSession) option" where
  "handle parse locs fs rs s =
     (case handle_loop parse locs fs rs s of
        None \<Rightarrow> None
      | Some (Inl e) \<Rightarrow> Some (Inl e)
      | Some (Inr s') \<Rightarrow> Some (Inr (s'\<lparr>connection_closed := True\<rparr>)))"

section \<open>The message parser (http\_parser is not among the sources)\<close>

text \<open>
  Modelled from the spec: \<open>bytes.find\<close>, the index of the first occurrence of a
  separator, used for "the first occurrence of the header/body separator".
\<close>

fun find_bytes :: "bytes \<Rightarrow> bytes \<Rightarrow> nat option" where
  "find_bytes needle [] = (if needle = [] then Some 0 else None)"
| "find_bytes needle (x # xs) =
     (if prefix needle (x # xs) then Some 0 else map_option Suc (find_bytes needle xs))"

text \<open>
  Modelled from the spec: the lines of the header block, split at every CR LF
  ("start line" and "each subsequent header line"). The first argument is the line
  read so far.
\<close>

fun split_crlf :: "string \<Rightarrow> string \<Rightarrow> string list" where
  "split_crlf cur [] = [cur]"
| "split_crlf cur [a] = [cur @ [a]]"
| "split_crlf cur (a # b # rest) =
     (if [a, b] = CRLF then cur # split_crlf [] rest else split_crlf (cur @ [a]) (b # rest))"

text \<open>Modelled from the spec: the white space that separates the tokens of the start line.\<close>

definition is_space :: "char \<Rightarrow> bool" where
  "is_space c = (c = CHR '' '' \<or> c = CHR 0x09)"

text \<open>
  Modelled from the spec: the "whitespace-separated tokens" of a line. The first
  argument is the token read so far.
\<close>

fun tokens_from :: "string \<Rightarrow> string \<Rightarrow> string list" where
  "tokens_from cur [] = (if cur = [] then [] else [cur])"
| "tokens_from cur (c # cs) =
     (if is_space c
      then (if cur = [] then tokens_from [] cs else cur # tokens_from [] cs)
      else tokens_from (cur @ [c]) cs)"

text \<open>Modelled from the spec: a header value without the white space around it.\<close>

definition strip :: "string \<Rightarrow> string" where
  "strip s = rev (dropWhile is_space (rev (dropWhile is_space s)))"

text \<open>
  Modelled from the spec: one header line \<open>name: value\<close>, split at its first colon,
  the name "case-folded to lowercase"; "a header line with no colon is InvalidMessage"
  (here \<open>None\<close>).
\<close>

definition parse_header_line :: "string \<Rightarrow> (string \<times> string) option" where
  "parse_header_line l =
     (if CHR '':'' \<in> set l
      then Some (lower (takeWhile (\<lambda>c. c \<noteq> CHR '':'') l),
                 strip (tl (dropWhile (\<lambda>c. c \<noteq> CHR '':'') l)))
      else None)"

text \<open>
  Modelled from the spec: the header mapping "from lowercase header name to value",
  the last line winning when a name repeats.
\<close>

fun parse_headers :: "string list \<Rightarrow> (string \<times> string) list \<Rightarrow> (string \<times> string) list option" where
  "parse_headers [] hs = Some hs"
| "parse_headers (l # ls) hs =
     (case parse_header_line l of
        None \<Rightarrow> None
      | Some (k, v) \<Rightarrow> parse_headers ls (AList.update k v hs))"

text \<open>
  Modelled from the spec: the \<open>content-length\<close> value, which "must parse as a
  non-negative integer": a non-empty run of decimal digits.
\<close>

definition parse_nat :: "string \<Rightarrow> nat option" where
  "parse_nat s = (if s \<noteq> [] \<and> list_all is_digit s then Some (decimal_value s) else None)"

text \<open>
  Modelled from the spec: the start line and the header lines of a header block:
  "exactly three whitespace-separated tokens - method, path, version - else
  InvalidMessage", then the header lines.
\<close>

definition parse_head :: "string \<Rightarrow> (string \<times> string \<times> string \<times> (string \<times> string) list) option" where
  "parse_head h =
     (case split_crlf [] h of
        [] \<Rightarrow> None
      | start_line # header_lines \<Rightarrow>
          (case tokens_from [] start_line of
             [m, u, v] \<Rightarrow>
               (case parse_headers header_lines [] of
                  None \<Rightarrow> None
                | Some hs \<Rightarrow> Some (m, u, v, hs))
           | _ \<Rightarrow> None))"

text \<open>
  Modelled from the spec: \<open>HTTPParser.parse_message\<close> of the missing module
  \<open>http_parser\<close> (section 4.1): split at the first blank line, or signal
  \<open>IncompleteMessage\<close>; parse the start line and the headers, or signal
  \<open>InvalidMessage\<close>; read \<open>content-length\<close> bytes of body when the header is there,
  signalling \<open>IncompleteMessage\<close> while they have not all arrived; return the message
  and the count of bytes it spans.
\<close>

definition parse_message :: parser where
  "parse_message buffer =
     (case find_bytes (CRLF @ CRLF) buffer of
        None \<Rightarrow> Inl IncompleteMessageError
      | Some i \<Rightarrow>
          (case parse_head (take i buffer) of
             None \<Rightarrow> Inl InvalidMessageError
           | Some (m, u, v, hs) \<Rightarrow>
               (case map_of hs ''content-length'' of
                  None \<Rightarrow>
                    Inr (Some \<lparr>method = m, url = u, version = v, headers = hs, body = []\<rparr>,
                         int (i + 4))
                | Some cl \<Rightarrow>
                    (case parse_nat cl of
                       None \<Rightarrow> Inl InvalidMessageError
                     | Some n \<Rightarrow>
                         if length buffer < i + 4 + n then Inl IncompleteMessageError
                         else Inr (Some \<lparr>method = m, url = u, version = v, headers = hs,
                                           body = take n (drop (i + 4) buffer)\<rparr>,
                                   int (i + 4 + n))))))"

section \<open>The contract of a parser\<close>

text \<open>
  A parser keeps its contract when the count it reports with a message is the length
  of a non-empty prefix of the buffer it was given.
\<close>

definition consumes_prefix :: "parser \<Rightarrow> bool" where
  "consumes_prefix parse =
     (\<forall>b m n. parse b = Inr (Some m, n) \<longrightarrow> 0 < n \<and> n \<le> int (length b))"

section \<open>Route resolution\<close>

text \<open>
  What the loop of \<open>match_location\<close> returns from any state of its two variables:
  either nothing beats the current candidate, or the result is the root of an entry
  that is longer than everything before it and at least as long as everything after.
\<close>

lemma match_loop_cases:
  "(match_loop locs uri m l = m \<and>
      (\<forall>e\<in>set locs. prefix (fst e) uri \<longrightarrow> int (length (fst e)) \<le> l)) \<or>
   (\<exists>pre p r post. locs = pre @ (p, r) # post \<and> match_loop locs uri m l = Some r \<and>
      prefix p uri \<and> l < int (length p) \<and>
      (\<forall>e\<in>set pre. prefix (fst e) uri \<longrightarrow> length (fst e) < length p) \<and>
      (\<forall>e\<in>set post. prefix (fst e) uri \<longrightarrow> length (fst e) \<le> length p))"
proof (induction locs arbitrary: m l)
  case Nil
  show ?case by simp
next
  case (Cons a rest)
  obtain p0 r0 where a: "a = (p0, r0)" by (cases a)
  show ?case
  proof (cases "startswith uri p0 \<and> int (length p0) > l")
    case True
    then have pm: "prefix p0 uri" and gt: "l < int (length p0)"
      by (simp_all add: startswith_def)
    have eq: "match_loop (a # rest) uri m l = match_loop rest uri (Some r0) (int (length p0))"
      using True a by simp
    from Cons.IH [of "Some r0" "int (length p0)"] show ?thesis
    proof (elim disjE exE conjE)
      assume r: "match_loop rest uri (Some r0) (int (length p0)) = Some r0"
        and all: "\<forall>e\<in>set rest. prefix (fst e) uri \<longrightarrow> int (length (fst e)) \<le> int (length p0)"
      have "a # rest = [] @ (p0, r0) # rest" using a by simp
      moreover have "\<forall>e\<in>set rest. prefix (fst e) uri \<longrightarrow> length (fst e) \<le> length p0"
        using all by simp
      ultimately show ?thesis using eq r pm gt by (intro disjI2 exI[of _ "[]"] exI[of _ p0] exI[of _ r0] exI[of _ rest]) simp
    next
      fix pre p r post
      assume d: "rest = pre @ (p, r) # post"
        and r: "match_loop rest uri (Some r0) (int (length p0)) = Some r"
        and pp: "prefix p uri" and lt: "int (length p0) < int (length p)"
        and bef: "\<forall>e\<in>set pre. prefix (fst e) uri \<longrightarrow> length (fst e) < length p"
        and aft: "\<forall>e\<in>set post. prefix (fst e) uri \<longrightarrow> length (fst e) \<le> length p"
      have "a # rest = (a # pre) @ (p, r) # post" using d by simp
      moreover have "\<forall>e\<in>set (a # pre). prefix (fst e) uri \<longrightarrow> length (fst e) < length p"
        using bef lt a by simp
      moreover have "l < int (length p)" using gt lt by simp
      ultimately show ?thesis using eq r pp aft
        by (intro disjI2 exI[of _ "a # pre"] exI[of _ p] exI[of _ r] exI[of _ post]) simp
    qed
  next
    case False
    then have eq: "match_loop (a # rest) uri m l = match_loop rest uri m l"
      using a by auto
    have small: "prefix p0 uri \<longrightarrow> int (length p0) \<le> l"
      using False by (auto simp: startswith_def)
    from Cons.IH [of m l] show ?thesis
    proof (elim disjE exE conjE)
      assume r: "match_loop rest uri m l = m"
        and all: "\<forall>e\<in>set rest. prefix (fst e) uri \<longrightarrow> int (length (fst e)) \<le> l"
      show ?thesis using eq r all small a by simp
    next
      fix pre p r post
      assume d: "rest = pre @ (p, r) # post"
        and r: "match_loop rest uri m l = Some r"
        and pp: "prefix p uri" and lt: "l < int (length p)"
        and bef: "\<forall>e\<in>set pre. prefix (fst e) uri \<longrightarrow> length (fst e) < length p"
        and aft: "\<forall>e\<in>set post. prefix (fst e) uri \<longrightarrow> length (fst e) \<le> length p"
      have "a # rest = (a # pre) @ (p, r) # post" using d by simp
      moreover have "\<forall>e\<in>set (a # pre). prefix (fst e) uri \<longrightarrow> length (fst e) < length p"
        using bef lt small a by auto
      ultimately show ?thesis using eq r pp aft lt
        by (intro disjI2 exI[of _ "a # pre"] exI[of _ p] exI[of _ r] exI[of _ post]) simp
    qed
  qed
qed

lemma match_location_None_iff:
  "match_location locs uri = None \<longleftrightarrow> (\<forall>e\<in>set locs. \<not> prefix (fst e) uri)"
proof
  assume n: "match_location locs uri = None"
  from match_loop_cases [of locs uri None "- 1"] n
  have "\<forall>e\<in>set locs. prefix (fst e) uri \<longrightarrow> int (length (fst e)) \<le> - 1"
    by (auto simp: match_location_def)
  then show "\<forall>e\<in>set locs. \<not> prefix (fst e) uri" by fastforce
next
  assume no: "\<forall>e\<in>set locs. \<not> prefix (fst e) uri"
  from match_loop_cases [of locs uri None "- 1"] show "match_location locs uri = None"
  proof (elim disjE exE conjE)
    assume "match_loop locs uri None (- 1) = None"
    then show ?thesis by (simp add: match_location_def)
  next
    fix pre p r post
    assume "locs = pre @ (p, r) # post" and "prefix p uri"
    with no show ?thesis by auto
  qed
qed

lemma match_location_Some:
  assumes "match_location locs uri = Some r"
  shows "\<exists>pre p post. locs = pre @ (p, r) # post \<and> prefix p uri \<and>
      (\<forall>e\<in>set pre. prefix (fst e) uri \<longrightarrow> length (fst e) < length p) \<and>
      (\<forall>e\<in>set post. prefix (fst e) uri \<longrightarrow> length (fst e) \<le> length p)"
  using match_loop_cases [of locs uri None "- 1"] assms
  by (auto simp: match_location_def)

text \<open>
  Claim C4. Route resolution returns absent exactly when no entry's prefix is a literal
  prefix of the path. Otherwise it returns the root of a matching entry that is strictly
  longer than every matching entry before it in iteration order and at least as long as
  every matching entry after it: the longest match, the first one met winning a tie.
  With the routes \<open>/\<close> to R1 and \<open>/api\<close> to R2, \<open>/api/users\<close> resolves to R2 and
  \<open>/about\<close> to R1.
\<close>

theorem match_location_longest_prefix:
  "(match_location locs uri = None \<longleftrightarrow> (\<forall>e\<in>set locs. \<not> prefix (fst e) uri)) \<and>
   (\<forall>r. match_location locs uri = Some r \<longrightarrow>
      (\<exists>pre p post. locs = pre @ (p, r) # post \<and> prefix p uri \<and>
        (\<forall>e\<in>set pre. prefix (fst e) uri \<longrightarrow> length (fst e) < length p) \<and>
        (\<forall>e\<in>set post. prefix (fst e) uri \<longrightarrow> length (fst e) \<le> length p))) \<and>
   match_location [(''/'', R1), (''/api'', R2)] ''/api/users'' = Some R2 \<and>
   match_location [(''/'', R1), (''/api'', R2)] ''/about'' = Some R1"
proof (intro conjI allI impI)
  show "match_location locs uri = None \<longleftrightarrow> (\<forall>e\<in>set locs. \<not> prefix (fst e) uri)"
    by (rule match_location_None_iff)
next
  fix r assume "match_location locs uri = Some r"
  then show "\<exists>pre p post. locs = pre @ (p, r) # post \<and> prefix p uri \<and>
        (\<forall>e\<in>set pre. prefix (fst e) uri \<longrightarrow> length (fst e) < length p) \<and>
        (\<forall>e\<in>set post. prefix (fst e) uri \<longrightarrow> length (fst e) \<le> length p)"
    by (rule match_location_Some)
next
  show "match_location [(''/'', R1), (''/api'', R2)] ''/api/users'' = Some R2"
    by (simp add: match_location_def startswith_def)
next
  show "match_location [(''/'', R1), (''/api'', R2)] ''/about'' = Some R1"
    by (simp add: match_location_def startswith_def)
qed

theorem match_location_longest_prefix_witness:
  "match_location [(''/'', ''R1''), (''/api'', ''R2''), (''/app'', ''R3'')] ''/api/users'' = Some ''R2'' \<and>
   (\<exists>pre p post. [(''/'', ''R1''), (''/api'', ''R2''), (''/app'', ''R3'')] = pre @ (p, ''R2'') # post \<and> prefix p ''/api/users'') \<and>
   match_location [(''/api'', ''R2'')] ''/about'' = None"
proof -
  let ?locs = "[(''/'', ''R1''), (''/api'', ''R2''), (''/app'', ''R3'')]"
  have e: "match_location ?locs ''/api/users'' = Some ''R2''"
    by (simp add: match_location_def startswith_def)
  have n: "\<forall>e\<in>set [(''/api'', ''R2'')]. \<not> prefix (fst e) ''/about''" by simp
  from match_location_longest_prefix [of ?locs "''/api/users''"] e
  have "\<exists>pre p post. ?locs = pre @ (p, ''R2'') # post \<and> prefix p ''/api/users''"
    by blast
  moreover from match_location_longest_prefix [of "[(''/api'', ''R2'')]" "''/about''"] n
  have "match_location [(''/api'', ''R2'')] ''/about'' = None" by blast
  ultimately show ?thesis using e by blast
qed

section \<open>The buffer and the drain loop\<close>

lemma slice_from_nonneg: "0 \<le> n \<Longrightarrow> slice_from xs n = drop (nat n) xs"
  by (simp add: slice_from_def)

lemma slice_from_suffix: "suffix (slice_from xs n) xs"
  by (simp add: slice_from_def suffix_drop)

lemma slice_from_prefix_removed:
  "0 \<le> n \<Longrightarrow> n \<le> int (length xs) \<Longrightarrow>
     xs = take (nat n) xs @ slice_from xs n \<and> int (length (take (nat n) xs)) = n"
  by (simp add: slice_from_def)

lemma slice_from_shorter:
  "0 < n \<Longrightarrow> n \<le> int (length xs) \<Longrightarrow> length (slice_from xs n) < length xs"
  by (auto simp: slice_from_def)

text \<open>The two outcomes of \<open>get_one_http_message\<close>.\<close>

lemma get_one_http_message_cases:
  "(\<exists>m n. parse (data dp) = Inr (Some m, n) \<and>
       get_one_http_message parse dp = (Some m, reduce_data dp n)) \<or>
   ((\<forall>m n. parse (data dp) \<noteq> Inr (Some m, n)) \<and> get_one_http_message parse dp = (None, dp))"
  by (cases "parse (data dp)") (auto simp: get_one_http_message_def split: option.splits)

lemma get_one_http_message_None:
  "fst (get_one_http_message parse dp) = None \<Longrightarrow> get_one_http_message parse dp = (None, dp)"
  using get_one_http_message_cases [of parse dp] by auto

lemma get_one_http_message_Some:
  "get_one_http_message parse dp = (Some m, dp') \<Longrightarrow>
     \<exists>n. parse (data dp) = Inr (Some m, n) \<and> dp' = reduce_data dp n"
  using get_one_http_message_cases [of parse dp] by auto

lemma handle_request_stop:
  "get_one_http_message parse (provider c) = (None, dp) \<Longrightarrow>
     handle_request parse locs fs c = Some c"
  using get_one_http_message_None [of parse "provider c"]
  by (subst handle_request.simps) simp

lemma handle_request_step:
  "get_one_http_message parse (provider c) = (Some request, dp) \<Longrightarrow>
     serve_request locs fs request (c\<lparr>provider := dp\<rparr>) = (go_on, c') \<Longrightarrow>
     handle_request parse locs fs c = (if go_on then handle_request parse locs fs c' else Some c')"
  by (subst handle_request.simps) simp

lemma serve_request_provider:
  "provider (snd (serve_request locs fs request c)) = provider c"
  by (simp add: serve_request_def sendall_def unregister_close_def send_404_def split: option.splits)

text \<open>
  The drain loop under the contract of the parser: every message shortens the buffer,
  so the loop returns, and a relation between the connection before and after that
  holds over each way through the loop body holds over the whole loop.
\<close>

lemma handle_request_rule:
  assumes wb: "consumes_prefix parse"
    and stop: "\<And>c. get_one_http_message parse (provider c) = (None, provider c) \<Longrightarrow> P c c"
    and last: "\<And>c request dp c'. get_one_http_message parse (provider c) = (Some request, dp) \<Longrightarrow>
        serve_request locs fs request (c\<lparr>provider := dp\<rparr>) = (False, c') \<Longrightarrow> P c c'"
    and step: "\<And>c request dp c' c''. get_one_http_message parse (provider c) = (Some request, dp) \<Longrightarrow>
        serve_request locs fs request (c\<lparr>provider := dp\<rparr>) = (True, c') \<Longrightarrow>
        P c' c'' \<Longrightarrow> P c c''"
  shows "\<exists>c'. handle_request parse locs fs c = Some c' \<and> P c c'"
proof (induction "length (data (provider c))" arbitrary: c rule: less_induct)
  case less
  show ?case
  proof (cases "get_one_http_message parse (provider c)")
    case (Pair r dp)
    show ?thesis
    proof (cases r)
      case None
      with Pair have g: "get_one_http_message parse (provider c) = (None, provider c)"
        using get_one_http_message_None [of parse "provider c"] by simp
      then show ?thesis using handle_request_stop [OF g] stop [OF g] by simp
    next
      case (Some request)
      with Pair have g: "get_one_http_message parse (provider c) = (Some request, dp)" by simp
      from get_one_http_message_Some [OF g] obtain n
        where p: "parse (data (provider c)) = Inr (Some request, n)"
          and dp: "dp = reduce_data (provider c) n" by blast
      from wb p have n: "0 < n" "n \<le> int (length (data (provider c)))"
        by (auto simp: consumes_prefix_def)
      have shorter: "length (data dp) < length (data (provider c))"
        using slice_from_shorter [OF n] dp by (simp add: reduce_data_def)
      obtain go_on c' where s: "serve_request locs fs request (c\<lparr>provider := dp\<rparr>) = (go_on, c')"
        by (cases "serve_request locs fs request (c\<lparr>provider := dp\<rparr>)")
      have pc': "provider c' = dp"
        using serve_request_provider [of locs fs request "c\<lparr>provider := dp\<rparr>"] s by simp
      show ?thesis
      proof (cases go_on)
        case False
        with s handle_request_step [OF g s] last [OF g] show ?thesis by simp
      next
        case True
        from shorter pc' have "length (data (provider c')) < length (data (provider c))" by simp
        from less [OF this] obtain c'' where
          h: "handle_request parse locs fs c' = Some c''" and P: "P c' c''" by blast
        from True s have s': "serve_request locs fs request (c\<lparr>provider := dp\<rparr>) = (True, c')" by simp
        from step [OF g s' P] h handle_request_step [OF g s] True show ?thesis by simp
      qed
    qed
  qed
qed

lemma handle_request_returns:
  "consumes_prefix parse \<Longrightarrow> \<exists>c'. handle_request parse locs fs c = Some c'"
  using handle_request_rule [where P = "\<lambda>_ _. True"] by blast

section \<open>The parser on a longer buffer\<close>

text \<open>Where the separator is found, it is inside the buffer, and more bytes do not move it.\<close>

lemma find_bytes_bound:
  "find_bytes needle xs = Some i \<Longrightarrow> i + length needle \<le> length xs \<and> take (length needle) (drop i xs) = needle"
proof (induction xs arbitrary: i)
  case Nil
  then show ?case by (auto split: if_splits)
next
  case (Cons x xs)
  show ?case
  proof (cases "prefix needle (x # xs)")
    case True
    with Cons.prems have "i = 0" by simp
    moreover from True obtain zs where "x # xs = needle @ zs" by (auto simp: prefix_def)
    ultimately show ?thesis by (metis add_0 prefix_length_le True append_eq_conv_conj drop0)
  next
    case False
    with Cons.prems obtain j where j: "find_bytes needle xs = Some j" "i = Suc j" by auto
    from Cons.IH [OF j(1)] j(2) show ?thesis by simp
  qed
qed

lemma find_bytes_append:
  "find_bytes needle xs = Some i \<Longrightarrow> find_bytes needle (xs @ ys) = Some i"
proof (induction xs arbitrary: i)
  case Nil
  then show ?case by (cases ys) (auto split: if_splits)
next
  case (Cons x xs)
  show ?case
  proof (cases "prefix needle (x # xs)")
    case True
    with Cons.prems have "i = 0" by simp
    moreover from True have "prefix needle ((x # xs) @ ys)" by (metis prefix_prefix)
    ultimately show ?thesis by simp
  next
    case False
    with Cons.prems obtain j where j: "find_bytes needle xs = Some j" "i = Suc j" by auto
    from find_bytes_bound [OF j(1)] have len: "length needle \<le> length xs" by simp
    have "\<not> prefix needle ((x # xs) @ ys)"
    proof
      assume "prefix needle ((x # xs) @ ys)"
      then have "prefix needle (x # xs) \<or> strict_prefix (x # xs) needle"
        by (metis prefix_append prefix_def strict_prefix_def)
      with False have "strict_prefix (x # xs) needle" by simp
      then have "length (x # xs) < length needle" by (rule prefix_length_less)
      with len show False by simp
    qed
    with Cons.IH [OF j(1)] j(2) show ?thesis by simp
  qed
qed

text \<open>A message that was parsed is parsed the same when bytes follow it.\<close>

lemma parse_message_append:
  assumes "parse_message a = Inr r"
  shows "parse_message (a @ b) = Inr r"
proof -
  from assms obtain i where i: "find_bytes (CRLF @ CRLF) a = Some i"
    by (auto simp: parse_message_def split: option.splits)
  from find_bytes_bound [OF i] have le: "i + 4 \<le> length a" by (simp add: CRLF_def)
  have f: "find_bytes (CRLF @ CRLF) (a @ b) = Some i" by (rule find_bytes_append [OF i])
  have t: "take i (a @ b) = take i a" using le by simp
  from assms i obtain m u v hs where h: "parse_head (take i a) = Some (m, u, v, hs)"
    by (auto simp: parse_message_def split: option.splits)
  show ?thesis
  proof (cases "map_of hs ''content-length''")
    case None
    with assms i h f t show ?thesis by (simp add: parse_message_def del: take_append drop_append)
  next
    case (Some cl)
    with assms i h obtain n where n: "parse_nat cl = Some n"
      by (auto simp: parse_message_def split: option.splits)
    from assms i h Some n have len: "\<not> length a < i + 4 + n"
      by (auto simp: parse_message_def split: if_splits)
    then have "take n (drop (i + 4) (a @ b)) = take n (drop (i + 4) a)" by simp
    moreover have "\<not> length (a @ b) < i + 4 + n" using len by simp
    ultimately show ?thesis using assms i h f t Some n len
      by (simp add: parse_message_def del: take_append drop_append length_append)
  qed
qed

text \<open>The count reported with a message covers at least the separator and lies in the buffer.\<close>

lemma parse_message_consumed:
  assumes "parse_message b = Inr (Some m, n)"
  shows "0 < n \<and> n \<le> int (length b)"
proof -
  from assms obtain i where i: "find_bytes (CRLF @ CRLF) b = Some i"
    by (auto simp: parse_message_def split: option.splits)
  from find_bytes_bound [OF i] have le: "i + 4 \<le> length b" by (simp add: CRLF_def)
  from assms i le show ?thesis
    by (auto simp: parse_message_def split: option.splits if_splits)
qed

lemma consumes_prefix_parse_message: "consumes_prefix parse_message"
  unfolding consumes_prefix_def using parse_message_consumed by blast

text \<open>
  Claim C9. For complete requests A and B (each parsed alone gives its message and its
  whole length as the count), parsing the buffer A followed by B gives message A and the
  length of A, and parsing what is left after that count gives message B and the length
  of B. The parser is a function of the buffer alone, so two calls of
  \<open>get_one_http_message\<close> take A and then B out of the buffer and leave it empty.
\<close>

theorem parse_message_pipelining:
  assumes a: "parse_message A = Inr (Some mA, int (length A))"
    and b: "parse_message B = Inr (Some mB, int (length B))"
  shows "parse_message (A @ B) = Inr (Some mA, int (length A)) \<and>
         parse_message (drop (length A) (A @ B)) = Inr (Some mB, int (length B)) \<and>
         get_one_http_message parse_message \<lparr>data = A @ B\<rparr> = (Some mA, \<lparr>data = B\<rparr>) \<and>
         get_one_http_message parse_message \<lparr>data = B\<rparr> = (Some mB, \<lparr>data = []\<rparr>)"
proof -
  have ab: "parse_message (A @ B) = Inr (Some mA, int (length A))"
    using a by (rule parse_message_append)
  have "slice_from (A @ B) (int (length A)) = B" by (simp add: slice_from_def)
  with ab have g1: "get_one_http_message parse_message \<lparr>data = A @ B\<rparr> = (Some mA, \<lparr>data = B\<rparr>)"
    by (simp add: get_one_http_message_def reduce_data_def)
  have "slice_from B (int (length B)) = []" by (simp add: slice_from_def)
  with b have g2: "get_one_http_message parse_message \<lparr>data = B\<rparr> = (Some mB, \<lparr>data = []\<rparr>)"
    by (simp add: get_one_http_message_def reduce_data_def)
  from ab b g1 g2 show ?thesis by simp
qed

theorem parse_message_pipelining_witness:
  "parse_message
     (''GET /first HTTP/1.1'' @ CRLF @ ''Host: example.com'' @ CRLF @ ''Content-Length: 0'' @ CRLF @ CRLF @
      ''POST /submit HTTP/1.1'' @ CRLF @ ''Host: example.com'' @ CRLF @ ''Content-Length: 5'' @ CRLF @ CRLF @
      ''hello'') =
     Inr (Some \<lparr>method = ''GET'', url = ''/first'', version = ''HTTP/1.1'',
                 headers = [(''host'', ''example.com''), (''content-length'', ''0'')], body = []\<rparr>, 61) \<and>
   parse_message
     (drop 61
       (''GET /first HTTP/1.1'' @ CRLF @ ''Host: example.com'' @ CRLF @ ''Content-Length: 0'' @ CRLF @ CRLF @
        ''POST /submit HTTP/1.1'' @ CRLF @ ''Host: example.com'' @ CRLF @ ''Content-Length: 5'' @ CRLF @ CRLF @
        ''hello'')) =
     Inr (Some \<lparr>method = ''POST'', url = ''/submit'', version = ''HTTP/1.1'',
                 headers = [(''host'', ''example.com''), (''content-length'', ''5'')], body = ''hello''\<rparr>, 68)"
proof -
  let ?A = "''GET /first HTTP/1.1'' @ CRLF @ ''Host: example.com'' @ CRLF @ ''Content-Length: 0'' @ CRLF @ CRLF"
  let ?B = "''POST /submit HTTP/1.1'' @ CRLF @ ''Host: example.com'' @ CRLF @ ''Content-Length: 5'' @ CRLF @ CRLF @ ''hello''"
  let ?mA = "\<lparr>method = ''GET'', url = ''/first'', version = ''HTTP/1.1'',
                 headers = [(''host'', ''example.com''), (''content-length'', ''0'')], body = []\<rparr>"
  let ?mB = "\<lparr>method = ''POST'', url = ''/submit'', version = ''HTTP/1.1'',
                 headers = [(''host'', ''example.com''), (''content-length'', ''5'')], body = ''hello''\<rparr>"
  have a: "parse_message ?A = Inr (Some ?mA, int (length ?A))" by code_simp
  have b: "parse_message ?B = Inr (Some ?mB, int (length ?B))" by code_simp
  from parse_message_pipelining [OF a b] show ?thesis by (simp add: CRLF_def)
qed

section \<open>HTTPProcessor.get\_one\_http\_message\<close>

text \<open>
  Claim C10. Whatever the parser does on the buffer, \<open>get_one_http_message\<close> returns a
  value. When the parser returns a message with a count \<open>n\<close>, the message is returned and
  the buffer becomes \<open>data[n:]\<close>; for a count between zero and the length of the buffer
  that is the buffer without its first \<open>n\<close> bytes. When the parser returns no message, or
  raises \<open>IncompleteMessageError\<close>, \<open>InvalidMessageError\<close> or any other exception,
  \<open>None\<close> is returned and the buffer is unchanged.
\<close>

theorem get_one_http_message_never_raises:
  "(\<forall>m n. parse (data dp) = Inr (Some m, n) \<longrightarrow>
      get_one_http_message parse dp = (Some m, dp\<lparr>data := slice_from (data dp) n\<rparr>) \<and>
      (0 \<le> n \<and> n \<le> int (length (data dp)) \<longrightarrow>
         slice_from (data dp) n = drop (nat n) (data dp) \<and>
         data dp = take (nat n) (data dp) @ slice_from (data dp) n \<and>
         int (length (take (nat n) (data dp))) = n)) \<and>
   (\<forall>n. parse (data dp) = Inr (None, n) \<longrightarrow> get_one_http_message parse dp = (None, dp)) \<and>
   (\<forall>e. parse (data dp) = Inl e \<longrightarrow> get_one_http_message parse dp = (None, dp)) \<and>
   (fst (get_one_http_message parse dp) = None \<longrightarrow> snd (get_one_http_message parse dp) = dp)"
proof (intro conjI allI impI)
  fix m n assume "parse (data dp) = Inr (Some m, n)"
  then show "get_one_http_message parse dp = (Some m, dp\<lparr>data := slice_from (data dp) n\<rparr>)"
    by (simp add: get_one_http_message_def reduce_data_def)
next
  fix m n assume "0 \<le> n \<and> n \<le> int (length (data dp))"
  then show "slice_from (data dp) n = drop (nat n) (data dp)"
    by (simp add: slice_from_nonneg)
next
  fix m n assume "0 \<le> n \<and> n \<le> int (length (data dp))"
  then show "data dp = take (nat n) (data dp) @ slice_from (data dp) n"
    using slice_from_prefix_removed [of n "data dp"] by simp
next
  fix m n assume "0 \<le> n \<and> n \<le> int (length (data dp))"
  then show "int (length (take (nat n) (data dp))) = n"
    using slice_from_prefix_removed [of n "data dp"] by simp
next
  fix n assume "parse (data dp) = Inr (None, n)"
  then show "get_one_http_message parse dp = (None, dp)"
    by (simp add: get_one_http_message_def)
next
  fix e assume "parse (data dp) = Inl e"
  then show "get_one_http_message parse dp = (None, dp)"
    by (simp add: get_one_http_message_def)
next
  assume "fst (get_one_http_message parse dp) = None"
  then show "snd (get_one_http_message parse dp) = dp"
    using get_one_http_message_None [of parse dp] by simp
qed

theorem get_one_http_message_never_raises_witness:
  "get_one_http_message parse_message
     \<lparr>data = ''GET /a HTTP/1.1'' @ CRLF @ ''Host: h'' @ CRLF @ CRLF @ ''GET /b''\<rparr> =
     (Some \<lparr>method = ''GET'', url = ''/a'', version = ''HTTP/1.1'', headers = [(''host'', ''h'')],
            body = []\<rparr>,
      \<lparr>data = ''GET /b''\<rparr>) \<and>
   get_one_http_message parse_message \<lparr>data = ''GET /b''\<rparr> = (None, \<lparr>data = ''GET /b''\<rparr>) \<and>
   get_one_http_message parse_message \<lparr>data = ''BADREQUEST'' @ CRLF @ ''Host: x'' @ CRLF @ CRLF\<rparr> =
     (None, \<lparr>data = ''BADREQUEST'' @ CRLF @ ''Host: x'' @ CRLF @ CRLF\<rparr>) \<and>
   get_one_http_message (\<lambda>b. Inl OtherException) \<lparr>data = ''GET /b''\<rparr> = (None, \<lparr>data = ''GET /b''\<rparr>) \<and>
   get_one_http_message (\<lambda>b. Inr (None, 0)) \<lparr>data = ''GET /b''\<rparr> = (None, \<lparr>data = ''GET /b''\<rparr>)"
proof -
  let ?m = "\<lparr>method = ''GET'', url = ''/a'', version = ''HTTP/1.1'', headers = [(''host'', ''h'')], body = []\<rparr>"
  let ?a = "\<lparr>data = ''GET /a HTTP/1.1'' @ CRLF @ ''Host: h'' @ CRLF @ CRLF @ ''GET /b''\<rparr>"
  let ?b = "\<lparr>data = ''GET /b''\<rparr>"
  let ?c = "\<lparr>data = ''BADREQUEST'' @ CRLF @ ''Host: x'' @ CRLF @ CRLF\<rparr>"
  have pa: "parse_message (data ?a) = Inr (Some ?m, 28)" by code_simp
  have pb: "parse_message (data ?b) = Inl IncompleteMessageError" by code_simp
  have pc: "parse_message (data ?c) = Inl InvalidMessageError" by code_simp
  have sl: "slice_from (data ?a) 28 = ''GET /b''" by code_simp
  from get_one_http_message_never_raises [of parse_message ?a] pa sl
  have "get_one_http_message parse_message ?a = (Some ?m, ?b)" by simp
  moreover from get_one_http_message_never_raises [of parse_message ?b] pb
  have "get_one_http_message parse_message ?b = (None, ?b)" by blast
  moreover from get_one_http_message_never_raises [of parse_message ?c] pc
  have "get_one_http_message parse_message ?c = (None, ?c)" by blast
  moreover from get_one_http_message_never_raises [of "\<lambda>b. Inl OtherException" ?b]
  have "get_one_http_message (\<lambda>b. Inl OtherException) ?b = (None, ?b)" by blast
  moreover from get_one_http_message_never_raises [of "\<lambda>b. Inr (None, 0)" ?b]
  have "get_one_http_message (\<lambda>b. Inr (None, 0)) ?b = (None, ?b)" by blast
  ultimately show ?thesis by blast
qed

section \<open>The connection buffer\<close>

text \<open>Every slice \<open>data[n:]\<close> is an end piece of the buffer, so is the buffer after a drain.\<close>

lemma reduce_data_suffix: "suffix (data (reduce_data dp n)) (data dp)"
  by (simp add: reduce_data_def slice_from_suffix)

lemma get_one_http_message_suffix:
  "suffix (data (snd (get_one_http_message parse dp))) (data dp)"
  using get_one_http_message_cases [of parse dp] by (auto simp: reduce_data_suffix)

lemma handle_request_suffix:
  assumes "consumes_prefix parse"
  shows "\<exists>c'. handle_request parse locs fs c = Some c' \<and>
           suffix (data (provider c')) (data (provider c))"
proof (rule handle_request_rule [OF assms])
  fix c show "suffix (data (provider c)) (data (provider c))" by simp
next
  fix c request dp c'
  assume g: "get_one_http_message parse (provider c) = (Some request, dp)"
    and s: "serve_request locs fs request (c\<lparr>provider := dp\<rparr>) = (False, c')"
  from s have "provider c' = dp"
    using serve_request_provider [of locs fs request "c\<lparr>provider := dp\<rparr>"] by simp
  with g get_one_http_message_suffix [of parse "provider c"]
  show "suffix (data (provider c')) (data (provider c))" by simp
next
  fix c request dp c' and c'' :: connection
  assume g: "get_one_http_message parse (provider c) = (Some request, dp)"
    and s: "serve_request locs fs request (c\<lparr>provider := dp\<rparr>) = (True, c')"
    and r: "suffix (data (provider c'')) (data (provider c'))"
  from s have "provider c' = dp"
    using serve_request_provider [of locs fs request "c\<lparr>provider := dp\<rparr>"] by simp
  with g get_one_http_message_suffix [of parse "provider c"]
  have "suffix (data (provider c')) (data (provider c))" by simp
  with r show "suffix (data (provider c'')) (data (provider c))"
    by (rule suffix_order.trans)
qed

lemma service_connection_suffix:
  assumes "consumes_prefix parse"
  shows "\<exists>c'. service_connection parse locs fs r c = Some c' \<and>
     (case r of
        Received chunk \<Rightarrow> suffix (data (provider c')) (data (provider c) @ chunk)
      | ConnectionResetError \<Rightarrow> provider c' = provider c)"
proof (cases r)
  case ConnectionResetError
  then show ?thesis by (simp add: service_connection_def unregister_close_def)
next
  case (Received chunk)
  show ?thesis
  proof (cases "chunk = []")
    case True
    with Received show ?thesis by (simp add: service_connection_def unregister_close_def)
  next
    case False
    from handle_request_suffix [OF assms, of locs fs "c\<lparr>provider := data_setter (provider c) chunk\<rparr>"]
    show ?thesis using Received False by (simp add: service_connection_def data_setter_def)
  qed
qed

text \<open>
  Claim C8. The buffer changes in two ways only. The setter appends the received bytes
  at the end. \<open>reduce_data\<close> keeps an end piece of the buffer, and for a count between
  zero and the length of the buffer it removes exactly that many bytes from the front;
  \<open>get_one_http_message\<close> calls it with the count the parser reported, or leaves the
  buffer alone, and serving a request does not touch the buffer. So after a drain, and
  after a whole read event, the buffer is an end piece of the old buffer followed by the
  received bytes: no byte is reordered.
\<close>

theorem buffer_append_or_drop_prefix:
  "data (data_setter dp chunk) = data dp @ chunk \<and>
   suffix (data (reduce_data dp n)) (data dp) \<and>
   (0 \<le> n \<and> n \<le> int (length (data dp)) \<longrightarrow>
      data dp = take (nat n) (data dp) @ data (reduce_data dp n) \<and>
      int (length (take (nat n) (data dp))) = n) \<and>
   (snd (get_one_http_message parse dp) = dp \<or>
    (\<exists>m k. parse (data dp) = Inr (Some m, k) \<and>
       snd (get_one_http_message parse dp) = reduce_data dp k)) \<and>
   provider (snd (serve_request locs fs request c)) = provider c \<and>
   data_provider (session_request locs fs request s) = data_provider s \<and>
   (consumes_prefix parse \<longrightarrow>
      (\<exists>c'. handle_request parse locs fs c = Some c' \<and>
         suffix (data (provider c')) (data (provider c)))) \<and>
   (consumes_prefix parse \<longrightarrow>
      (\<exists>c'. service_connection parse locs fs r c = Some c' \<and>
         (case r of
            Received chunk \<Rightarrow> suffix (data (provider c')) (data (provider c) @ chunk)
          | ConnectionResetError \<Rightarrow> provider c' = provider c)))"
proof (intro conjI impI)
  show "data (data_setter dp chunk) = data dp @ chunk" by (simp add: data_setter_def)
next
  show "suffix (data (reduce_data dp n)) (data dp)" by (rule reduce_data_suffix)
next
  assume "0 \<le> n \<and> n \<le> int (length (data dp))"
  then show "data dp = take (nat n) (data dp) @ data (reduce_data dp n)"
    using slice_from_prefix_removed [of n "data dp"] by (simp add: reduce_data_def)
next
  assume "0 \<le> n \<and> n \<le> int (length (data dp))"
  then show "int (length (take (nat n) (data dp))) = n"
    using slice_from_prefix_removed [of n "data dp"] by simp
next
  show "snd (get_one_http_message parse dp) = dp \<or>
    (\<exists>m k. parse (data dp) = Inr (Some m, k) \<and>
       snd (get_one_http_message parse dp) = reduce_data dp k)"
    using get_one_http_message_cases [of parse dp] by auto
next
  show "provider (snd (serve_request locs fs request c)) = provider c"
    by (rule serve_request_provider)
next
  show "data_provider (session_request locs fs request s) = data_provider s"
    by (simp add: session_request_def session_sendall_def split: option.splits)
next
  assume "consumes_prefix parse"
  then show "\<exists>c'. handle_request parse locs fs c = Some c' \<and>
         suffix (data (provider c')) (data (provider c))"
    by (rule handle_request_suffix)
next
  assume "consumes_prefix parse"
  then show "\<exists>c'. service_connection parse locs fs r c = Some c' \<and>
         (case r of
            Received chunk \<Rightarrow> suffix (data (provider c')) (data (provider c) @ chunk)
          | ConnectionResetError \<Rightarrow> provider c' = provider c)"
    by (rule service_connection_suffix)
qed

theorem buffer_append_or_drop_prefix_witness:
  "service_connection parse_message [(''/'', ''html'')]
     (\<lambda>p. if p = ''html/a'' then Some ''hello'' else None)
     (Received (''P/1.1'' @ CRLF @ ''Connection: keep-alive'' @ CRLF @ CRLF @ ''GET /b''))
     \<lparr>provider = \<lparr>data = ''GET /a HTT''\<rparr>, sent = [], registered = True, closed = False\<rparr> =
     Some \<lparr>provider = \<lparr>data = ''GET /b''\<rparr>, sent = [response_200 True ''hello''],
           registered = True, closed = False\<rparr> \<and>
   suffix ''GET /b''
     (''GET /a HTT'' @ ''P/1.1'' @ CRLF @ ''Connection: keep-alive'' @ CRLF @ CRLF @ ''GET /b'') \<and>
   data (reduce_data \<lparr>data = ''GET /a HTT''\<rparr> 4) = ''/a HTT'' \<and>
   ''GET /a HTT'' = ''GET '' @ ''/a HTT''"
proof -
  let ?fs = "\<lambda>p. if p = ''html/a'' then Some ''hello'' else None"
  let ?chunk = "''P/1.1'' @ CRLF @ ''Connection: keep-alive'' @ CRLF @ CRLF @ ''GET /b''"
  let ?c = "\<lparr>provider = \<lparr>data = ''GET /a HTT''\<rparr>, sent = [], registered = True, closed = False\<rparr>"
  let ?c' = "\<lparr>provider = \<lparr>data = ''GET /b''\<rparr>, sent = [response_200 True ''hello''],
           registered = True, closed = False\<rparr>"
  have run: "service_connection parse_message [(''/'', ''html'')] ?fs (Received ?chunk) ?c = Some ?c'"
    by code_simp
  note t = buffer_append_or_drop_prefix [where dp = "\<lparr>data = ''GET /a HTT''\<rparr>" and n = 4
      and parse = parse_message and locs = "[(''/'', ''html'')]" and fs = ?fs and c = ?c
      and r = "Received ?chunk"]
  from t consumes_prefix_parse_message run
  have "suffix ''GET /b'' (''GET /a HTT'' @ ?chunk)" by auto
  moreover from t have "''GET /a HTT'' = take (nat 4) ''GET /a HTT'' @ data (reduce_data \<lparr>data = ''GET /a HTT''\<rparr> 4)"
    by simp
  then have "data (reduce_data \<lparr>data = ''GET /a HTT''\<rparr> 4) = ''/a HTT''" by simp
  ultimately show ?thesis using run by simp
qed

section \<open>Serving requests\<close>

text \<open>The three ways through the body of the loop of \<open>_handle_request\<close>.\<close>

lemma serve_request_cases:
  "serve_request locs fs request c =
     (case fs (file_path locs (url request)) of
        None \<Rightarrow> (False, c\<lparr>sent := sent c @ [response_404], registered := False, closed := True\<rparr>)
      | Some b \<Rightarrow>
          if wants_keep_alive request then (True, c\<lparr>sent := sent c @ [response_200 True b]\<rparr>)
          else (False, c\<lparr>registered := False, closed := True\<rparr>))"
  by (simp add: serve_request_def sendall_def send_404_def unregister_close_def split: option.splits)

text \<open>
  Claim C2 as stated fails: the bytes of \<open>test_invalid_start_line\<close> arrive on a fresh
  connection, the parser signals \<open>InvalidMessageError\<close>, and after the read event the
  socket is still registered and not closed.
\<close>

theorem invalid_message_open_counterexample:
  "parse_message (''BADREQUEST'' @ CRLF @ ''Host: x'' @ CRLF @ CRLF) = Inl InvalidMessageError \<and>
   service_connection parse_message [(''/'', ''html'')] (\<lambda>p. None)
     (Received (''BADREQUEST'' @ CRLF @ ''Host: x'' @ CRLF @ CRLF))
     \<lparr>provider = \<lparr>data = []\<rparr>, sent = [], registered = True, closed = False\<rparr> =
   Some \<lparr>provider = \<lparr>data = ''BADREQUEST'' @ CRLF @ ''Host: x'' @ CRLF @ CRLF\<rparr>, sent = [],
         registered = True, closed = False\<rparr>"
  by code_simp

text \<open>
  Claim C2, amended. When parsing the buffered bytes fails with \<open>InvalidMessageError\<close>,
  the drain loop stops and the connection is left exactly as it was: no response is sent
  for the malformed message, the malformed bytes stay in the buffer, and the socket stays
  registered and open, as for an incomplete message.
\<close>

theorem invalid_message_stops_drain:
  "(parse (data (provider c)) = Inl InvalidMessageError \<longrightarrow>
      handle_request parse locs fs c = Some c) \<and>
   (chunk \<noteq> [] \<and> parse (data (provider c) @ chunk) = Inl InvalidMessageError \<longrightarrow>
      service_connection parse locs fs (Received chunk) c =
        Some (c\<lparr>provider := \<lparr>data = data (provider c) @ chunk\<rparr>\<rparr>))"
proof (intro conjI impI)
  assume "parse (data (provider c)) = Inl InvalidMessageError"
  then have "get_one_http_message parse (provider c) = (None, provider c)"
    by (simp add: get_one_http_message_def)
  then show "handle_request parse locs fs c = Some c" by (rule handle_request_stop)
next
  let ?c = "c\<lparr>provider := data_setter (provider c) chunk\<rparr>"
  assume a: "chunk \<noteq> [] \<and> parse (data (provider c) @ chunk) = Inl InvalidMessageError"
  then have "get_one_http_message parse (provider ?c) = (None, provider ?c)"
    by (simp add: get_one_http_message_def data_setter_def)
  then have "handle_request parse locs fs ?c = Some ?c" by (rule handle_request_stop)
  with a show "service_connection parse locs fs (Received chunk) c =
        Some (c\<lparr>provider := \<lparr>data = data (provider c) @ chunk\<rparr>\<rparr>)"
    by (simp add: service_connection_def data_setter_def)
qed

theorem invalid_message_stops_drain_witness:
  "handle_request parse_message [(''/'', ''html'')] (\<lambda>p. None)
     \<lparr>provider = \<lparr>data = ''GET / HTTP/1.1'' @ CRLF @ ''InvalidHeader'' @ CRLF @ CRLF\<rparr>,
      sent = [response_200 True ''hello''], registered = True, closed = False\<rparr> =
   Some \<lparr>provider = \<lparr>data = ''GET / HTTP/1.1'' @ CRLF @ ''InvalidHeader'' @ CRLF @ CRLF\<rparr>,
         sent = [response_200 True ''hello''], registered = True, closed = False\<rparr> \<and>
   service_connection parse_message [(''/'', ''html'')] (\<lambda>p. None)
     (Received (''Length: abc'' @ CRLF @ CRLF @ ''hello''))
     \<lparr>provider = \<lparr>data = ''POST / HTTP/1.1'' @ CRLF @ ''Content-''\<rparr>,
      sent = [], registered = True, closed = False\<rparr> =
   Some \<lparr>provider = \<lparr>data = ''POST / HTTP/1.1'' @ CRLF @ ''Content-'' @
                       ''Length: abc'' @ CRLF @ CRLF @ ''hello''\<rparr>,
         sent = [], registered = True, closed = False\<rparr>"
proof -
  let ?c1 = "\<lparr>provider = \<lparr>data = ''GET / HTTP/1.1'' @ CRLF @ ''InvalidHeader'' @ CRLF @ CRLF\<rparr>,
      sent = [response_200 True ''hello''], registered = True, closed = False\<rparr>"
  let ?c2 = "\<lparr>provider = \<lparr>data = ''POST / HTTP/1.1'' @ CRLF @ ''Content-''\<rparr>,
      sent = [], registered = True, closed = False\<rparr>"
  let ?chunk = "''Length: abc'' @ CRLF @ CRLF @ ''hello''"
  have p1: "parse_message (data (provider ?c1)) = Inl InvalidMessageError" by code_simp
  have p2: "?chunk \<noteq> [] \<and> parse_message (data (provider ?c2) @ ?chunk) = Inl InvalidMessageError"
    by code_simp
  from invalid_message_stops_drain [of parse_message ?c1 "[(''/'', ''html'')]" "\<lambda>p. None"] p1
  have "handle_request parse_message [(''/'', ''html'')] (\<lambda>p. None) ?c1 = Some ?c1" by blast
  moreover from invalid_message_stops_drain [of parse_message ?c2 "[(''/'', ''html'')]" "\<lambda>p. None" ?chunk] p2
  have "service_connection parse_message [(''/'', ''html'')] (\<lambda>p. None) (Received ?chunk) ?c2 =
     Some (?c2\<lparr>provider := \<lparr>data = data (provider ?c2) @ ?chunk\<rparr>\<rparr>)" by blast
  ultimately show ?thesis by simp
qed

text \<open>
  Claim C1 at the end-to-end scenario of the spec: \<open>GET /\<close> without a \<open>Connection\<close>
  header, \<open>html/index.html\<close> present with 42 bytes. The selector server unregisters and
  closes the socket and has sent nothing; the blocking server of \<open>server_v1\<close> on the
  same bytes writes the 200 response before it closes.
\<close>

theorem close_without_response:
  "handle_request parse_message [(''/'', ''html'')]
     (\<lambda>p. if p = ''html/index.html'' then Some (replicate 42 (CHR ''x'')) else None)
     \<lparr>provider = \<lparr>data = ''GET / HTTP/1.1'' @ CRLF @ ''Host: h'' @ CRLF @ CRLF\<rparr>,
      sent = [], registered = True, closed = False\<rparr> =
   Some \<lparr>provider = \<lparr>data = []\<rparr>, sent = [], registered = False, closed = True\<rparr> \<and>
   handle parse_message [(''/'', ''html'')]
     (\<lambda>p. if p = ''html/index.html'' then Some (replicate 42 (CHR ''x'')) else None)
     [Received (''GET / HTTP/1.1'' @ CRLF @ ''Host: h'' @ CRLF @ CRLF)]
     \<lparr>data_provider = \<lparr>data = []\<rparr>, connection_sent = [], active = True,
      connection_closed = False\<rparr> =
   Some (Inr \<lparr>data_provider = \<lparr>data = []\<rparr>,
              connection_sent = [response_200 False (replicate 42 (CHR ''x''))],
              active = False, connection_closed = True\<rparr>)"
  by code_simp

text \<open>
  Claim C3 as stated fails in both directions. A readable file asked for with
  \<open>Connection: keep-alive, Upgrade\<close>, a value other than \<open>keep-alive\<close>, leaves the
  connection open; a request with \<open>Connection: keep-alive\<close> for a file that cannot be
  read gets the 404 response and the connection is closed.
\<close>

theorem keep_alive_counterexample:
  "serve_request [(''/'', ''html'')] (\<lambda>p. if p = ''html/a'' then Some ''hello'' else None)
     \<lparr>method = ''GET'', url = ''/a'', version = ''HTTP/1.1'',
      headers = [(''connection'', ''keep-alive, Upgrade'')], body = []\<rparr>
     \<lparr>provider = \<lparr>data = []\<rparr>, sent = [], registered = True, closed = False\<rparr> =
     (True, \<lparr>provider = \<lparr>data = []\<rparr>, sent = [response_200 True ''hello''],
             registered = True, closed = False\<rparr>) \<and>
   serve_request [(''/'', ''html'')] (\<lambda>p. None)
     \<lparr>method = ''GET'', url = ''/a'', version = ''HTTP/1.1'',
      headers = [(''connection'', ''keep-alive'')], body = []\<rparr>
     \<lparr>provider = \<lparr>data = []\<rparr>, sent = [], registered = True, closed = False\<rparr> =
     (False, \<lparr>provider = \<lparr>data = []\<rparr>, sent = [response_404],
              registered = False, closed = True\<rparr>)"
  by code_simp

text \<open>Without a \<open>connection\<close> header the test is made on the empty string and fails.\<close>

lemma no_connection_header: 
  "map_of (headers request) ''connection'' = None \<Longrightarrow> \<not> wants_keep_alive request"
  by (simp add: wants_keep_alive_def headers_get_def contains_def lower_def)

text \<open>
  Claim C3, amended. For every parsed request, the selector server keeps the connection
  open after the request (the drain loop goes on, the socket stays as it was) exactly
  when the file was read and the \<open>Connection\<close> header value, in lower case, contains
  \<open>keep-alive\<close> as a substring; in every other case, among them a missing header and a
  failed read, the socket is unregistered and closed when the request has been handled.
\<close>

theorem keep_alive_decision:
  "fst (serve_request locs fs request c) =
     (fs (file_path locs (url request)) \<noteq> None \<and>
      sublist ''keep-alive'' (lower (headers_get (headers request) ''connection''))) \<and>
   (fst (serve_request locs fs request c) \<longrightarrow>
      registered (snd (serve_request locs fs request c)) = registered c \<and>
      closed (snd (serve_request locs fs request c)) = closed c) \<and>
   (\<not> fst (serve_request locs fs request c) \<longrightarrow>
      \<not> registered (snd (serve_request locs fs request c)) \<and>
      closed (snd (serve_request locs fs request c))) \<and>
   (map_of (headers request) ''connection'' = None \<longrightarrow> \<not> fst (serve_request locs fs request c))"
  using no_connection_header [of request]
  by (auto simp: serve_request_cases wants_keep_alive_def contains_def split: option.splits)


theorem keep_alive_decision_witness:
  "fst (serve_request [(''/'', ''html'')] (\<lambda>p. if p = ''html/a'' then Some ''hello'' else None)
     \<lparr>method = ''GET'', url = ''/a'', version = ''HTTP/1.1'',
      headers = [(''connection'', ''Keep-Alive'')], body = []\<rparr>
     \<lparr>provider = \<lparr>data = []\<rparr>, sent = [], registered = True, closed = False\<rparr>) \<and>
   registered (snd (serve_request [(''/'', ''html'')] (\<lambda>p. if p = ''html/a'' then Some ''hello'' else None)
     \<lparr>method = ''GET'', url = ''/a'', version = ''HTTP/1.1'',
      headers = [(''connection'', ''Keep-Alive'')], body = []\<rparr>
     \<lparr>provider = \<lparr>data = []\<rparr>, sent = [], registered = True, closed = False\<rparr>)) \<and>
   \<not> fst (serve_request [(''/'', ''html'')] (\<lambda>p. if p = ''html/a'' then Some ''hello'' else None)
     \<lparr>method = ''GET'', url = ''/a'', version = ''HTTP/1.1'',
      headers = [(''host'', ''h'')], body = []\<rparr>
     \<lparr>provider = \<lparr>data = []\<rparr>, sent = [], registered = True, closed = False\<rparr>) \<and>
   closed (snd (serve_request [(''/'', ''html'')] (\<lambda>p. if p = ''html/a'' then Some ''hello'' else None)
     \<lparr>method = ''GET'', url = ''/a'', version = ''HTTP/1.1'',
      headers = [(''host'', ''h'')], body = []\<rparr>
     \<lparr>provider = \<lparr>data = []\<rparr>, sent = [], registered = True, closed = False\<rparr>))"
proof -
  let ?fs = "\<lambda>p. if p = ''html/a'' then Some ''hello'' else None"
  let ?ka = "\<lparr>method = ''GET'', url = ''/a'', version = ''HTTP/1.1'',
      headers = [(''connection'', ''Keep-Alive'')], body = []\<rparr>"
  let ?no = "\<lparr>method = ''GET'', url = ''/a'', version = ''HTTP/1.1'',
      headers = [(''host'', ''h'')], body = []\<rparr>"
  let ?c = "\<lparr>provider = \<lparr>data = []\<rparr>, sent = [], registered = True, closed = False\<rparr>"
  have f: "?fs (file_path [(''/'', ''html'')] (url ?ka)) \<noteq> None" by code_simp
  have k: "sublist ''keep-alive'' (lower (headers_get (headers ?ka) ''connection''))" by code_simp
  have n: "map_of (headers ?no) ''connection'' = None" by simp
  from keep_alive_decision [of "[(''/'', ''html'')]" ?fs ?ka ?c] f k
  have "fst (serve_request [(''/'', ''html'')] ?fs ?ka ?c) \<and>
        registered (snd (serve_request [(''/'', ''html'')] ?fs ?ka ?c))" by simp
  moreover from keep_alive_decision [of "[(''/'', ''html'')]" ?fs ?no ?c] n
  have "\<not> fst (serve_request [(''/'', ''html'')] ?fs ?no ?c) \<and>
        closed (snd (serve_request [(''/'', ''html'')] ?fs ?no ?c))" by blast
  ultimately show ?thesis by blast
qed

text \<open>
  Claim C5 as stated fails: with the route \<open>/\<close> to \<open>www\<close>, the rewritten path
  \<open>/index.html\<close> has a matching route, yet the file looked for is \<open>html/index.html\<close>,
  and a request for \<open>/\<close> gets the 404 response although \<open>www/index.html\<close> is there.
\<close>

theorem root_path_counterexample:
  "match_location [(''/'', ''www'')] ''/index.html'' = Some ''www'' \<and>
   file_path [(''/'', ''www'')] ''/'' = ''html/index.html'' \<and>
   serve_request [(''/'', ''www'')] (\<lambda>p. if p = ''www/index.html'' then Some ''hello'' else None)
     \<lparr>method = ''GET'', url = ''/'', version = ''HTTP/1.1'',
      headers = [(''connection'', ''keep-alive'')], body = []\<rparr>
     \<lparr>provider = \<lparr>data = []\<rparr>, sent = [], registered = True, closed = False\<rparr> =
     (False, \<lparr>provider = \<lparr>data = []\<rparr>, sent = [response_404],
              registered = False, closed = True\<rparr>)"
  by code_simp

text \<open>
  Claim C5, amended. For every request whose path is exactly \<open>/\<close>, the path is rewritten
  to \<open>/index.html\<close> and route resolution is not attempted: the root is the fixed default
  directory \<open>html\<close> and the file is \<open>html/index.html\<close>, whatever the routes are, so the
  request is served the same with any routes as with none.
\<close>

theorem root_path_default_root:
  "request_url ''/'' = ''/index.html'' \<and>
   request_root locs ''/'' = Some ''html'' \<and>
   file_path locs ''/'' = ''html/index.html'' \<and>
   serve_request locs fs (request\<lparr>url := ''/''\<rparr>) c =
     serve_request [] fs (request\<lparr>url := ''/''\<rparr>) c \<and>
   session_request locs fs (request\<lparr>url := ''/''\<rparr>) s =
     session_request [] fs (request\<lparr>url := ''/''\<rparr>) s"
  by (simp add: request_url_def request_root_def file_path_def format_root_def
      serve_request_def session_request_def wants_keep_alive_def)

text \<open>
  Claim C6 as stated fails: no route matches \<open>/about\<close>, the missing root is formatted into
  the path as the text \<open>None\<close>, and where a file \<open>None/about\<close> can be read the request
  gets a 200 response and not the 404 response.
\<close>

theorem no_route_counterexample:
  "match_location [(''/api'', ''srv'')] ''/about'' = None \<and>
   serve_request [(''/api'', ''srv'')] (\<lambda>p. if p = ''None/about'' then Some ''hello'' else None)
     \<lparr>method = ''GET'', url = ''/about'', version = ''HTTP/1.1'',
      headers = [(''connection'', ''keep-alive'')], body = []\<rparr>
     \<lparr>provider = \<lparr>data = []\<rparr>, sent = [], registered = True, closed = False\<rparr> =
     (True, \<lparr>provider = \<lparr>data = []\<rparr>, sent = [response_200 True ''hello''],
             registered = True, closed = False\<rparr>)"
  by code_simp

text \<open>
  Claim C6, amended. For every request for which route resolution returns absent (its
  path is not \<open>/\<close> and no route prefix matches), the file looked for is the text \<open>None\<close>
  followed by the request path. When that file cannot be read the server sends the 404
  response, unregisters and closes the socket, and the handling step returns; when it
  can be read and the request asks for keep-alive, it is served with a 200 response.
\<close>

theorem no_route_none_path:
  assumes "url request \<noteq> ''/''" and "match_location locs (url request) = None"
  shows "file_path locs (url request) = ''None'' @ url request \<and>
    (fs (''None'' @ url request) = None \<longrightarrow>
       serve_request locs fs request c =
         (False, c\<lparr>sent := sent c @ [response_404], registered := False, closed := True\<rparr>)) \<and>
    (\<forall>b. fs (''None'' @ url request) = Some b \<and> wants_keep_alive request \<longrightarrow>
       serve_request locs fs request c = (True, c\<lparr>sent := sent c @ [response_200 True b]\<rparr>))"
proof -
  have p: "file_path locs (url request) = ''None'' @ url request"
    using assms by (simp add: file_path_def request_root_def request_url_def format_root_def)
  show ?thesis unfolding serve_request_cases p using p by simp
qed

theorem no_route_none_path_witness:
  "file_path [(''/api'', ''srv'')] ''/about'' = ''None/about'' \<and>
   serve_request [(''/api'', ''srv'')] (\<lambda>p. if p = ''html/about'' then Some ''hello'' else None)
     \<lparr>method = ''GET'', url = ''/about'', version = ''HTTP/1.1'',
      headers = [(''connection'', ''keep-alive'')], body = []\<rparr>
     \<lparr>provider = \<lparr>data = []\<rparr>, sent = [], registered = True, closed = False\<rparr> =
     (False, \<lparr>provider = \<lparr>data = []\<rparr>, sent = [response_404],
              registered = False, closed = True\<rparr>)"
proof -
  let ?locs = "[(''/api'', ''srv'')]"
  let ?fs = "\<lambda>p. if p = ''html/about'' then Some ''hello'' else None"
  let ?r = "\<lparr>method = ''GET'', url = ''/about'', version = ''HTTP/1.1'',
      headers = [(''connection'', ''keep-alive'')], body = []\<rparr>"
  let ?c = "\<lparr>provider = \<lparr>data = []\<rparr>, sent = [], registered = True, closed = False\<rparr>"
  have u: "url ?r \<noteq> ''/''" by simp
  have m: "match_location ?locs (url ?r) = None" by code_simp
  have f: "?fs (''None'' @ url ?r) = None" by simp
  from no_route_none_path [OF u m, of ?fs ?c] f show ?thesis by simp
qed

section \<open>Response bytes\<close>

text \<open>The decimal text of a number is made of digits and denotes that number.\<close>

lemma of_char_digit_char: "d < 10 \<Longrightarrow> (of_char (digit_char d) :: nat) = 48 + d"
  by (simp add: digit_char_def)

lemma decimal_value_snoc:
  "decimal_value (xs @ [c]) = 10 * decimal_value xs + (of_char c - 48)"
  by (simp add: decimal_value_def)

lemma str_nat_digits: "list_all is_digit (str_nat n)"
proof (induction n rule: str_nat.induct)
  case (1 n)
  show ?case
  proof (cases "n < 10")
    case True
    then show ?thesis by (subst str_nat.simps) (simp add: is_digit_def of_char_digit_char)
  next
    case False
    have "n mod 10 < 10" by simp
    then have "is_digit (digit_char (n mod 10))"
      by (simp add: is_digit_def of_char_digit_char del: mod_less_divisor)
    with False 1 show ?thesis by (subst str_nat.simps) simp
  qed
qed

lemma decimal_value_str_nat: "decimal_value (str_nat n) = n"
proof (induction n rule: str_nat.induct)
  case (1 n)
  show ?case
  proof (cases "n < 10")
    case True
    then show ?thesis
      by (subst str_nat.simps) (simp add: decimal_value_def of_char_digit_char)
  next
    case False
    have "n mod 10 < 10" by simp
    then have d: "(of_char (digit_char (n mod 10)) :: nat) = 48 + n mod 10"
      by (rule of_char_digit_char)
    from False 1 have "decimal_value (str_nat (n div 10)) = n div 10" by simp
    with False d show ?thesis
      by (subst str_nat.simps) (simp add: decimal_value_snoc)
  qed
qed

text \<open>The 404 response is a constant.\<close>

lemma response_404_bytes:
  "response_404 = ''HTTP/1.1 404 Not Found'' @ CRLF @ ''Content-Length: 13'' @ CRLF @
     ''Content-Type: text/plain'' @ CRLF @ CRLF @ ''404 Not Found''"
  by code_simp

text \<open>Everything a drain writes is the 404 response or a 200 response.\<close>

lemma handle_request_payloads:
  assumes "consumes_prefix parse"
  shows "\<exists>c'. handle_request parse locs fs c = Some c' \<and>
     (\<exists>new. sent c' = sent c @ new \<and>
        (\<forall>p\<in>set new. p = response_404 \<or> (\<exists>b. p = response_200 True b)))"
proof (rule handle_request_rule [OF assms])
  fix c :: connection
  have "sent c = sent c @ []" by simp
  then show "\<exists>new. sent c = sent c @ new \<and>
        (\<forall>p\<in>set new. p = response_404 \<or> (\<exists>b. p = response_200 True b))" by fastforce
next
  fix c request dp c'
  assume s: "serve_request locs fs request (c\<lparr>provider := dp\<rparr>) = (False, c')"
  then have "sent c' = sent c @ [response_404] \<or> sent c' = sent c @ []"
    by (auto simp: serve_request_cases split: option.splits if_splits)
  then show "\<exists>new. sent c' = sent c @ new \<and>
        (\<forall>p\<in>set new. p = response_404 \<or> (\<exists>b. p = response_200 True b))"
    by fastforce
next
  fix c request dp c' and c'' :: connection
  assume s: "serve_request locs fs request (c\<lparr>provider := dp\<rparr>) = (True, c')"
    and r: "\<exists>new. sent c'' = sent c' @ new \<and>
        (\<forall>p\<in>set new. p = response_404 \<or> (\<exists>b. p = response_200 True b))"
  from s obtain b where b: "sent c' = sent c @ [response_200 True b]"
    by (auto simp: serve_request_cases split: option.splits if_splits)
  from r obtain new where n: "sent c'' = sent c' @ new"
    "\<forall>p\<in>set new. p = response_404 \<or> (\<exists>b. p = response_200 True b)" by blast
  from b n have "sent c'' = sent c @ (response_200 True b # new)" by simp
  moreover from n(2) have "\<forall>p\<in>set (response_200 True b # new).
      p = response_404 \<or> (\<exists>b. p = response_200 True b)" by auto
  ultimately show "\<exists>new. sent c'' = sent c @ new \<and>
        (\<forall>p\<in>set new. p = response_404 \<or> (\<exists>b. p = response_200 True b))" by blast
qed

text \<open>
  Claim C7. A 200 response is the status line \<open>HTTP/1.1 200 OK\<close>, a \<open>Content-Length\<close>
  line with the decimal text of the length of the body (made of digits, and denoting that
  length), the line \<open>Content-Type: text/plain\<close>, the line \<open>Connection: keep-alive\<close>
  (always in the selector server, only for a keep-alive request in \<open>server_v1\<close>), a blank
  line and the body. A failed read gives the 404 response: status line
  \<open>HTTP/1.1 404 Not Found\<close>, \<open>Content-Length: 13\<close>, the same content type, a blank line
  and the body \<open>404 Not Found\<close> of 13 bytes. Every payload a drain writes is one of the
  two.
\<close>

theorem response_bytes:
  "(\<forall>b. fs (file_path locs (url request)) = Some b \<and> wants_keep_alive request \<longrightarrow>
      sent (snd (serve_request locs fs request c)) =
        sent c @ [''HTTP/1.1 200 OK'' @ CRLF @
                  ''Content-Length: '' @ str_nat (length b) @ CRLF @
                  ''Content-Type: text/plain'' @ CRLF @
                  ''Connection: keep-alive'' @ CRLF @ CRLF @ b]) \<and>
   (fs (file_path locs (url request)) = None \<longrightarrow>
      sent (snd (serve_request locs fs request c)) =
        sent c @ [''HTTP/1.1 404 Not Found'' @ CRLF @
                  ''Content-Length: 13'' @ CRLF @
                  ''Content-Type: text/plain'' @ CRLF @ CRLF @ ''404 Not Found'']) \<and>
   (\<forall>b. fs (file_path locs (url request)) = Some b \<longrightarrow>
      connection_sent (session_request locs fs request s) =
        connection_sent s @ [''HTTP/1.1 200 OK'' @ CRLF @
                  ''Content-Length: '' @ str_nat (length b) @ CRLF @
                  ''Content-Type: text/plain'' @ CRLF @
                  (if wants_keep_alive request then ''Connection: keep-alive'' @ CRLF else []) @
                  CRLF @ b]) \<and>
   (fs (file_path locs (url request)) = None \<longrightarrow>
      connection_sent (session_request locs fs request s) =
        connection_sent s @ [''HTTP/1.1 404 Not Found'' @ CRLF @
                  ''Content-Length: 13'' @ CRLF @
                  ''Content-Type: text/plain'' @ CRLF @ CRLF @ ''404 Not Found'']) \<and>
   list_all is_digit (str_nat n) \<and> decimal_value (str_nat n) = n \<and>
   length ''404 Not Found'' = 13 \<and>
   (consumes_prefix parse \<longrightarrow>
      (\<exists>c'. handle_request parse locs fs c = Some c' \<and>
         (\<exists>new. sent c' = sent c @ new \<and>
            (\<forall>p\<in>set new. p = response_404 \<or> (\<exists>b. p = response_200 True b)))))"
proof (intro conjI allI impI)
  fix b assume "fs (file_path locs (url request)) = Some b \<and> wants_keep_alive request"
  then show "sent (snd (serve_request locs fs request c)) =
        sent c @ [''HTTP/1.1 200 OK'' @ CRLF @
                  ''Content-Length: '' @ str_nat (length b) @ CRLF @
                  ''Content-Type: text/plain'' @ CRLF @
                  ''Connection: keep-alive'' @ CRLF @ CRLF @ b]"
    by (simp add: serve_request_cases response_200_def)
next
  assume "fs (file_path locs (url request)) = None"
  then show "sent (snd (serve_request locs fs request c)) =
        sent c @ [''HTTP/1.1 404 Not Found'' @ CRLF @
                  ''Content-Length: 13'' @ CRLF @
                  ''Content-Type: text/plain'' @ CRLF @ CRLF @ ''404 Not Found'']"
    by (simp add: serve_request_cases response_404_bytes)
next
  fix b assume "fs (file_path locs (url request)) = Some b"
  then show "connection_sent (session_request locs fs request s) =
        connection_sent s @ [''HTTP/1.1 200 OK'' @ CRLF @
                  ''Content-Length: '' @ str_nat (length b) @ CRLF @
                  ''Content-Type: text/plain'' @ CRLF @
                  (if wants_keep_alive request then ''Connection: keep-alive'' @ CRLF else []) @
                  CRLF @ b]"
    by (simp add: session_request_def session_sendall_def response_200_def)
next
  assume "fs (file_path locs (url request)) = None"
  then show "connection_sent (session_request locs fs request s) =
        connection_sent s @ [''HTTP/1.1 404 Not Found'' @ CRLF @
                  ''Content-Length: 13'' @ CRLF @
                  ''Content-Type: text/plain'' @ CRLF @ CRLF @ ''404 Not Found'']"
    by (simp add: session_request_def session_sendall_def response_404_bytes)
next
  show "list_all is_digit (str_nat n)" by (rule str_nat_digits)
next
  show "decimal_value (str_nat n) = n" by (rule decimal_value_str_nat)
next
  show "length ''404 Not Found'' = 13" by simp
next
  assume "consumes_prefix parse"
  then show "\<exists>c'. handle_request parse locs fs c = Some c' \<and>
         (\<exists>new. sent c' = sent c @ new \<and>
            (\<forall>p\<in>set new. p = response_404 \<or> (\<exists>b. p = response_200 True b)))"
    by (rule handle_request_payloads)
qed


theorem response_bytes_witness:
  "sent (snd (serve_request [(''/'', ''html'')] (\<lambda>p. if p = ''html/a'' then Some ''hello'' else None)
     \<lparr>method = ''GET'', url = ''/a'', version = ''HTTP/1.1'',
      headers = [(''connection'', ''keep-alive'')], body = []\<rparr>
     \<lparr>provider = \<lparr>data = []\<rparr>, sent = [], registered = True, closed = False\<rparr>)) =
     [''HTTP/1.1 200 OK'' @ CRLF @ ''Content-Length: 5'' @ CRLF @
      ''Content-Type: text/plain'' @ CRLF @ ''Connection: keep-alive'' @ CRLF @ CRLF @ ''hello''] \<and>
   sent (snd (serve_request [(''/'', ''html'')] (\<lambda>p. if p = ''html/a'' then Some ''hello'' else None)
     \<lparr>method = ''GET'', url = ''/b'', version = ''HTTP/1.1'',
      headers = [(''connection'', ''keep-alive'')], body = []\<rparr>
     \<lparr>provider = \<lparr>data = []\<rparr>, sent = [], registered = True, closed = False\<rparr>)) =
     [''HTTP/1.1 404 Not Found'' @ CRLF @ ''Content-Length: 13'' @ CRLF @
      ''Content-Type: text/plain'' @ CRLF @ CRLF @ ''404 Not Found''] \<and>
   (\<exists>c'. handle_request parse_message [(''/'', ''html'')]
           (\<lambda>p. if p = ''html/a'' then Some ''hello'' else None)
           \<lparr>provider = \<lparr>data = ''GET /a HTTP/1.1'' @ CRLF @ ''Connection: keep-alive'' @ CRLF @ CRLF @
                               ''GET /b HTTP/1.1'' @ CRLF @ CRLF\<rparr>,
            sent = [], registered = True, closed = False\<rparr> = Some c' \<and>
         sent c' = [response_200 True ''hello'', response_404])"
proof -
  let ?locs = "[(''/'', ''html'')]"
  let ?fs = "\<lambda>p. if p = ''html/a'' then Some ''hello'' else None"
  let ?a = "\<lparr>method = ''GET'', url = ''/a'', version = ''HTTP/1.1'',
      headers = [(''connection'', ''keep-alive'')], body = []\<rparr>"
  let ?b = "\<lparr>method = ''GET'', url = ''/b'', version = ''HTTP/1.1'',
      headers = [(''connection'', ''keep-alive'')], body = []\<rparr>"
  let ?c = "\<lparr>provider = \<lparr>data = []\<rparr>, sent = [], registered = True, closed = False\<rparr>"
  let ?d = "\<lparr>provider = \<lparr>data = ''GET /a HTTP/1.1'' @ CRLF @ ''Connection: keep-alive'' @ CRLF @ CRLF @
                               ''GET /b HTTP/1.1'' @ CRLF @ CRLF\<rparr>,
            sent = [], registered = True, closed = False\<rparr>"
  have fa: "?fs (file_path ?locs (url ?a)) = Some ''hello'' \<and> wants_keep_alive ?a" by code_simp
  have fb: "?fs (file_path ?locs (url ?b)) = None" by code_simp
  have five: "str_nat (length ''hello'') = ''5''" by code_simp
  have run: "map_option sent (handle_request parse_message ?locs ?fs ?d) =
      Some [response_200 True ''hello'', response_404]" by code_simp
  from response_bytes [where fs = ?fs and locs = ?locs and request = ?a and c = ?c] fa five
  have "sent (snd (serve_request ?locs ?fs ?a ?c)) =
     [''HTTP/1.1 200 OK'' @ CRLF @ ''Content-Length: 5'' @ CRLF @
      ''Content-Type: text/plain'' @ CRLF @ ''Connection: keep-alive'' @ CRLF @ CRLF @ ''hello'']"
    by simp
  moreover from response_bytes [where fs = ?fs and locs = ?locs and request = ?b and c = ?c] fb
  have "sent (snd (serve_request ?locs ?fs ?b ?c)) =
     [''HTTP/1.1 404 Not Found'' @ CRLF @ ''Content-Length: 13'' @ CRLF @
      ''Content-Type: text/plain'' @ CRLF @ CRLF @ ''404 Not Found'']"
    by simp
  moreover from response_bytes [where parse = parse_message and fs = ?fs and locs = ?locs and c = ?d]
    consumes_prefix_parse_message
  obtain c' where "handle_request parse_message ?locs ?fs ?d = Some c'" by blast
  with run have "\<exists>c'. handle_request parse_message ?locs ?fs ?d = Some c' \<and>
         sent c' = [response_200 True ''hello'', response_404]" by simp
  ultimately show ?thesis by blast
qed

end
